theory Spec2Isabelle
  imports Complex_Main "HOL-Library.Sublist"
begin

section \<open>Exceptions and tensors\<close>

text \<open>
  The Python exceptions that \<^verbatim>\<open>model.py\<close> and the tensor operations it calls can
  raise. A fallible operation returns \<open>error + 'a\<close>, with \<open>Inl\<close> for the exception.
\<close>

datatype error =
    AssertionError
  | ZeroDivisionError
  | TypeError
  | IndexError
  | RuntimeError
  | ValueError
  | AttributeError

definition bindE :: "error + 'a \<Rightarrow> ('a \<Rightarrow> error + 'b) \<Rightarrow> error + 'b" where
  "bindE r f = (case r of Inl e \<Rightarrow> Inl e | Inr v \<Rightarrow> f v)"

text \<open>
  A rank-1 tensor is a list of reals, a rank-2 tensor a list of rows. Entries are
  real numbers: the development is about exact arithmetic, not about rounding.
\<close>

type_synonym vec = "real list"
type_synonym mat = "real list list"

text \<open>
  \<^verbatim>\<open>t[i]\<close> for an integer \<open>i\<close> and a tensor with \<open>n\<close> rows: the valid positions are
  \<open>- n \<le> i < n\<close>, a negative one standing for \<open>i + n\<close>; any other raises IndexError.
\<close>

definition getitem :: "'a list \<Rightarrow> int \<Rightarrow> error + 'a" where
  "getitem xs i =
     (if i < - int (length xs) \<or> int (length xs) \<le> i then Inl IndexError
      else Inr (xs ! nat (if i < 0 then i + int (length xs) else i)))"

text \<open>Indexing with a rank-1 integer tensor, \<^verbatim>\<open>t[idx]\<close>: one row per index.\<close>

fun index_select :: "'a list \<Rightarrow> int list \<Rightarrow> error + 'a list" where
  "index_select xs [] = Inr []"
| "index_select xs (i # is) =
     bindE (getitem xs i) (\<lambda>r. bindE (index_select xs is) (\<lambda>rs. Inr (r # rs)))"

text \<open>\<^verbatim>\<open>t * a\<close> for a rank-2 tensor and a scalar.\<close>

definition scale :: "mat \<Rightarrow> real \<Rightarrow> mat" where
  "scale x a = map (map (\<lambda>v. v * a)) x"

text \<open>
  Broadcasting of two rank-2 operands under a binary operation: along each
  dimension the sizes agree, or one of them is 1 and that operand is repeated;
  anything else raises RuntimeError.
\<close>

definition broadcast_row :: "(real \<Rightarrow> real \<Rightarrow> real) \<Rightarrow> vec \<Rightarrow> vec \<Rightarrow> error + vec" where
  "broadcast_row f a b =
     (if length a = length b then Inr (map2 f a b)
      else if length a = 1 then Inr (map (\<lambda>y. f (hd a) y) b)
      else if length b = 1 then Inr (map (\<lambda>x. f x (hd b)) a)
      else Inl RuntimeError)"

fun broadcast_rows :: "(real \<Rightarrow> real \<Rightarrow> real) \<Rightarrow> mat \<Rightarrow> mat \<Rightarrow> error + mat" where
  "broadcast_rows f [] [] = Inr []"
| "broadcast_rows f (a # as) (b # bs) =
     bindE (broadcast_row f a b) (\<lambda>r. bindE (broadcast_rows f as bs) (\<lambda>rs. Inr (r # rs)))"
| "broadcast_rows f _ _ = Inl RuntimeError"

definition broadcast2 :: "(real \<Rightarrow> real \<Rightarrow> real) \<Rightarrow> mat \<Rightarrow> mat \<Rightarrow> error + mat" where
  "broadcast2 f x y =
     (if length x = length y then broadcast_rows f x y
      else if length x = 1 then broadcast_rows f (replicate (length y) (hd x)) y
      else if length y = 1 then broadcast_rows f x (replicate (length x) (hd y))
      else Inl RuntimeError)"

definition mat_add :: "mat \<Rightarrow> mat \<Rightarrow> error + mat" where
  "mat_add x y = broadcast2 (+) x y"

text \<open>
  \<^verbatim>\<open>v + m\<close> for a rank-1 \<open>v\<close> and a rank-2 \<open>m\<close>: the rank-1 operand gets a
  leading dimension of size 1, then the two rank-2 operands are broadcast.
\<close>

definition vec_add_mat :: "vec \<Rightarrow> mat \<Rightarrow> error + mat" where
  "vec_add_mat v m = broadcast2 (+) [v] m"

section \<open>The model object\<close>

text \<open>
  The fields of \<^verbatim>\<open>AIM_LightGCN\<close>: the sizes, the buffer \<^verbatim>\<open>alpha\<close>, and the weights of
  the two \<^verbatim>\<open>Embedding\<close> modules (\<^verbatim>\<open>embedding.weight\<close> of shape
  \<open>num_nodes \<times> embedding_dim\<close>, \<^verbatim>\<open>beta.weight\<close> of shape \<open>num_nodes \<times> 1\<close>).
\<close>

record model =
  num_nodes :: int
  embedding_dim :: int
  num_layers :: int
  alpha :: "real list"
  embedding :: mat
  beta :: mat

text \<open>The argument \<^verbatim>\<open>alpha: Optional[Union[float, Tensor]]\<close> of the constructor.\<close>

datatype alpha_arg = AlphaNone | AlphaFloat real | AlphaTensor "real list"

text \<open>
  \<^verbatim>\<open>Embedding(rows, cols)\<close> allocates a \<open>rows \<times> cols\<close> weight; a negative size
  raises RuntimeError.
\<close>

definition Embedding :: "int \<Rightarrow> int \<Rightarrow> error + (nat \<times> nat)" where
  "Embedding rows cols =
     (if rows < 0 \<or> cols < 0 then Inl RuntimeError else Inr (nat rows, nat cols))"

text \<open>
  \<^verbatim>\<open>torch.nn.init.xavier_uniform_\<close> fills a \<open>rows \<times> cols\<close> weight with random
  draws; \<open>draw i j\<close> is the value drawn for entry \<open>(i, j)\<close>. Its bound divides by
  \<open>fan_in + fan_out = cols + rows\<close>, which raises ZeroDivisionError when both are 0.
\<close>

definition xavier_uniform :: "(nat \<Rightarrow> nat \<Rightarrow> real) \<Rightarrow> nat \<times> nat \<Rightarrow> error + mat" where
  "xavier_uniform draw shape =
     (case shape of (rows, cols) \<Rightarrow>
        if rows + cols = 0 then Inl ZeroDivisionError
        else Inr (map (\<lambda>i. map (\<lambda>j. draw i j) [0..<cols]) [0..<rows]))"

text \<open>
  \<^verbatim>\<open>AIM_LightGCN.__init__\<close> followed by the \<^verbatim>\<open>reset_parameters\<close> it calls. The
  propagation layers \<^verbatim>\<open>LGConv\<close> have no parameters and are not part of the record.
\<close>

definition default_alpha :: "int \<Rightarrow> alpha_arg \<Rightarrow> error + alpha_arg" where
  "default_alpha L a =
     (case a of
        AlphaNone \<Rightarrow>
          if L + 1 = 0 then Inl ZeroDivisionError
          else Inr (AlphaFloat (1 / real_of_int (L + 1)))
      | _ \<Rightarrow> Inr a)"

definition alpha_buffer :: "int \<Rightarrow> alpha_arg \<Rightarrow> error + real list" where
  "alpha_buffer L a =
     (case a of
        AlphaTensor t \<Rightarrow> if int (length t) = L + 1 then Inr t else Inl AssertionError
      | AlphaFloat c \<Rightarrow> Inr (replicate (nat (L + 1)) c)
      | AlphaNone \<Rightarrow> Inl TypeError)"

definition init ::
  "int \<Rightarrow> int \<Rightarrow> int \<Rightarrow> alpha_arg \<Rightarrow> (nat \<Rightarrow> nat \<Rightarrow> real) \<Rightarrow> (nat \<Rightarrow> nat \<Rightarrow> real)
     \<Rightarrow> error + model" where
  "init n d L a draw_e draw_b =
     bindE (default_alpha L a) (\<lambda>a1.
     bindE (alpha_buffer L a1) (\<lambda>al.
     bindE (Embedding n d) (\<lambda>se.
     bindE (Embedding n 1) (\<lambda>sb.
     bindE (xavier_uniform draw_e se) (\<lambda>w.
     bindE (xavier_uniform draw_b sb) (\<lambda>b.
       Inr \<lparr>num_nodes = n, embedding_dim = d, num_layers = L,
            alpha = al, embedding = w, beta = b\<rparr>))))))"

section \<open>Embedding propagation: \<^verbatim>\<open>get_embedding\<close>\<close>

text \<open>
  The graph argument \<^verbatim>\<open>edge_index: Adj\<close> is a \<open>2 \<times> E\<close> index tensor (one
  \<open>(source, target)\<close> pair per edge) or a sparse adjacency, given by its coordinates.
  \<^verbatim>\<open>to_edge_index\<close> returns the coordinates of a sparse adjacency.
\<close>

datatype adj = EdgeIndex "(int \<times> int) list" | SparseAdj "(int \<times> int) list"

definition is_sparse :: "adj \<Rightarrow> bool" where
  "is_sparse g = (case g of EdgeIndex _ \<Rightarrow> False | SparseAdj _ \<Rightarrow> True)"

definition to_edge_index :: "adj \<Rightarrow> (int \<times> int) list" where
  "to_edge_index g = (case g of EdgeIndex es \<Rightarrow> es | SparseAdj es \<Rightarrow> es)"

text \<open>A graph that is not sparse is the index tensor itself.\<close>

definition index_tensor :: "adj \<Rightarrow> (int \<times> int) list" where
  "index_tensor g = (case g of EdgeIndex es \<Rightarrow> es | SparseAdj es \<Rightarrow> es)"

text \<open>
  \<^verbatim>\<open>LGConv\<close> is a layer of torch-geometric, not of this repository: a call
  \<^verbatim>\<open>self.convs[i](x, edge_index, edge_weight)\<close> is a parameter \<open>conv\<close> of the model
  functions. The layer has no weights, so all \<^verbatim>\<open>num_layers\<close> layers are the same
  function.
\<close>

type_synonym lgconv = "mat \<Rightarrow> adj \<Rightarrow> real list option \<Rightarrow> error + mat"

text \<open>
  The loop \<^verbatim>\<open>for i in range(self.num_layers)\<close>: \<open>i\<close> is the loop index, the
  next argument the number of iterations left, \<open>x\<close> and \<open>out\<close> the loop variables.
\<close>

fun layers ::
  "lgconv \<Rightarrow> adj \<Rightarrow> real list option \<Rightarrow> real list \<Rightarrow> nat \<Rightarrow> nat \<Rightarrow> mat \<Rightarrow> mat \<Rightarrow> error + mat"
  where
  "layers conv g w al i 0 x out = Inr out"
| "layers conv g w al i (Suc k) x out =
     bindE (conv x g w) (\<lambda>x'.
     bindE (getitem al (int i + 1)) (\<lambda>a.
     bindE (mat_add out (scale x' a)) (\<lambda>out'.
       layers conv g w al (Suc i) k x' out')))"

text \<open>Lines 46 to 51 of \<^verbatim>\<open>get_embedding\<close>: the mixed sum over the hops.\<close>

definition propagate :: "model \<Rightarrow> lgconv \<Rightarrow> adj \<Rightarrow> real list option \<Rightarrow> error + mat" where
  "propagate m conv edge_index edge_weight =
     bindE (getitem (alpha m) 0) (\<lambda>a0.
       layers conv edge_index edge_weight (alpha m) 0 (nat (num_layers m))
         (embedding m) (scale (embedding m) a0))"

text \<open>
  \<^verbatim>\<open>torch.split(out, [num_users, num_items])\<close>: a size that is not an integer
  raises TypeError; a negative size, or sizes that do not sum to the number of
  rows, raise RuntimeError.
\<close>

definition split :: "mat \<Rightarrow> int option \<Rightarrow> int option \<Rightarrow> error + (mat \<times> mat)" where
  "split t num_users num_items =
     (case num_users of
        None \<Rightarrow> Inl TypeError
      | Some u \<Rightarrow>
          (case num_items of
             None \<Rightarrow> Inl TypeError
           | Some i \<Rightarrow>
               if u < 0 \<or> i < 0 \<or> u + i \<noteq> int (length t) then Inl RuntimeError
               else Inr (take (nat u) t, drop (nat u) t)))"

definition l2norm :: "vec \<Rightarrow> real" where
  "l2norm v = sqrt (sum_list (map (\<lambda>x. x\<^sup>2) v))"

definition eps :: real where
  "eps = 1 / 10 ^ 12"

text \<open>
  \<^verbatim>\<open>F.normalize(t, p=2, dim=1)\<close> divides every row by the larger of its Euclidean
  norm and \<^verbatim>\<open>eps = 1e-12\<close>.
\<close>

definition normalize :: "mat \<Rightarrow> mat" where
  "normalize t = map (\<lambda>row. map (\<lambda>v. v / max (l2norm row) eps) row) t"

text \<open>\<^verbatim>\<open>t * scaling_factor\<close>: multiplying a tensor by \<^verbatim>\<open>None\<close> raises TypeError.\<close>

definition mul_factor :: "mat \<Rightarrow> real option \<Rightarrow> error + mat" where
  "mul_factor t scaling_factor =
     (case scaling_factor of None \<Rightarrow> Inl TypeError | Some s \<Rightarrow> Inr (scale t s))"

definition get_embedding ::
  "model \<Rightarrow> lgconv \<Rightarrow> adj \<Rightarrow> real list option \<Rightarrow> int option \<Rightarrow> int option \<Rightarrow> real option
     \<Rightarrow> error + mat" where
  "get_embedding m conv edge_index edge_weight num_users num_items scaling_factor =
     bindE (propagate m conv edge_index edge_weight) (\<lambda>out.
     bindE (split out num_users num_items) (\<lambda>(user_emb, item_emb).
     bindE (mul_factor (normalize item_emb) scaling_factor) (\<lambda>item_emb'.
       Inr (user_emb @ item_emb'))))"

section \<open>Edge scoring: \<^verbatim>\<open>forward\<close>\<close>

definition dot :: "vec \<Rightarrow> vec \<Rightarrow> real" where
  "dot a b = sum_list (map2 (*) a b)"

text \<open>
  \<^verbatim>\<open>first, second = t.chunk(2)\<close> on a rank-1 tensor of length \<open>n\<close>: the chunk size is
  \<open>\<lceil>n / 2\<rceil>\<close>. A tensor of length 1 gives a single chunk, and unpacking it into
  two names raises ValueError; an empty tensor gives two empty chunks.
\<close>

definition chunk2 :: "'a list \<Rightarrow> error + ('a list \<times> 'a list)" where
  "chunk2 t =
     (if length t = 1 then Inl ValueError
      else Inr (take ((length t + 1) div 2) t, drop ((length t + 1) div 2) t))"

text \<open>
  An \<^verbatim>\<open>edge_label_index\<close> is a \<open>2 \<times> m\<close> index tensor, here the list of its \<open>m\<close>
  columns \<open>(source, destination)\<close>: row 0 is \<open>map fst\<close>, row 1 is \<open>map snd\<close>.
\<close>

text \<open>
  Lines 71 to 80 of \<^verbatim>\<open>forward\<close>: the scores of the labelled edges \<open>eli\<close> from the
  final embeddings \<open>out\<close> and the bias table \<open>b\<close> (\<^verbatim>\<open>self.beta.weight\<close>).
\<close>

definition score_edges :: "mat \<Rightarrow> mat \<Rightarrow> (int \<times> int) list \<Rightarrow> error + (mat \<times> mat)" where
  "score_edges out b eli =
     bindE (index_select out (map fst eli)) (\<lambda>out_src.
     bindE (index_select out (map snd eli)) (\<lambda>out_dst.
     bindE (chunk2 (map2 dot out_src out_dst)) (\<lambda>(pos_rank, neg_rank).
     bindE (chunk2 (map snd eli)) (\<lambda>(pos_item, neg_item).
     bindE (index_select b pos_item) (\<lambda>pos_beta.
     bindE (vec_add_mat pos_rank pos_beta) (\<lambda>pos_rank'.
     bindE (index_select b neg_item) (\<lambda>neg_beta.
     bindE (vec_add_mat neg_rank neg_beta) (\<lambda>neg_rank'.
       Inr (pos_rank', neg_rank')))))))))"

definition forward ::
  "model \<Rightarrow> lgconv \<Rightarrow> adj \<Rightarrow> (int \<times> int) list option \<Rightarrow> int option \<Rightarrow> int option
     \<Rightarrow> real option \<Rightarrow> real list option \<Rightarrow> error + (mat \<times> mat)" where
  "forward m conv edge_index edge_label_index num_users num_items scaling_factor edge_weight =
     (let eli = (case edge_label_index of
                   None \<Rightarrow> (if is_sparse edge_index then to_edge_index edge_index
                            else index_tensor edge_index)
                 | Some e \<Rightarrow> e)
      in
       bindE (get_embedding m conv edge_index edge_weight num_users num_items scaling_factor)
         (\<lambda>out. score_edges out (beta m) eli))"

section \<open>Top-k retrieval: \<^verbatim>\<open>recommend\<close>\<close>

text \<open>\<^verbatim>\<open>a @ b.t()\<close>: entry \<open>(i, j)\<close> is the dot product of row \<open>i\<close> of \<open>a\<close> and row \<open>j\<close> of \<open>b\<close>.\<close>

definition matmul_t :: "mat \<Rightarrow> mat \<Rightarrow> mat" where
  "matmul_t a b = map (\<lambda>r. map (\<lambda>c. dot r c) b) a"

text \<open>
  \<^verbatim>\<open>pred.topk(k, dim=-1).indices\<close> on a matrix with \<open>ncols\<close> columns: the positions of
  the \<open>k\<close> largest entries of every row, largest first; \<open>k\<close> outside \<open>0..ncols\<close> raises
  RuntimeError. torch does not fix the order of equal entries; here the smaller
  position comes first. With \<^verbatim>\<open>sorted=False\<close> any order is allowed, and this one
  is returned.
\<close>

definition topk_row :: "vec \<Rightarrow> nat \<Rightarrow> int list" where
  "topk_row row k = map int (take k (sort_key (\<lambda>i. - (row ! i)) [0..<length row]))"

definition topk :: "mat \<Rightarrow> nat \<Rightarrow> int \<Rightarrow> error + int list list" where
  "topk pred ncols k =
     (if k < 0 \<or> int ncols < k then Inl RuntimeError
      else Inr (map (\<lambda>row. topk_row row (nat k)) pred))"

fun map_rows :: "('a \<Rightarrow> error + 'b) \<Rightarrow> 'a list \<Rightarrow> error + 'b list" where
  "map_rows f [] = Inr []"
| "map_rows f (x # xs) = bindE (f x) (\<lambda>y. bindE (map_rows f xs) (\<lambda>ys. Inr (y # ys)))"

definition recommend ::
  "model \<Rightarrow> lgconv \<Rightarrow> adj \<Rightarrow> real list option \<Rightarrow> int list option \<Rightarrow> int list option
     \<Rightarrow> int \<Rightarrow> bool \<Rightarrow> error + int list list" where
  "recommend m conv edge_index edge_weight src_index dst_index k sorted_flag =
     bindE (get_embedding m conv edge_index edge_weight None None None) (\<lambda>out.
     bindE (case src_index of None \<Rightarrow> Inr out | Some s \<Rightarrow> index_select out s) (\<lambda>out_src.
     bindE (case dst_index of None \<Rightarrow> Inr out | Some d \<Rightarrow> index_select out d) (\<lambda>out_dst.
     bindE (topk (matmul_t out_src out_dst) (length out_dst) k) (\<lambda>top_index.
       (case dst_index of
          None \<Rightarrow> Inr top_index
        | Some d \<Rightarrow> map_rows (index_select d) top_index)))))"

section \<open>The ranking loss: \<^verbatim>\<open>BPRLoss\<close> and \<^verbatim>\<open>recommendation_loss\<close>\<close>

definition sigmoid :: "real \<Rightarrow> real" where
  "sigmoid x = 1 / (1 + exp (- x))"

definition logsigmoid :: "real \<Rightarrow> real" where
  "logsigmoid x = ln (sigmoid x)"

text \<open>A scalar result: a real number, or the \<^verbatim>\<open>nan\<close> that the mean of an empty tensor is.\<close>

datatype scalar = Finite real | NaN

definition mean :: "vec \<Rightarrow> scalar" where
  "mean v = (if v = [] then NaN else Finite (sum_list v / real (length v)))"

text \<open>\<^verbatim>\<open>parameters.norm(p=2)\<close>: the Euclidean norm of all entries.\<close>

definition norm2 :: "mat \<Rightarrow> real" where
  "norm2 p = sqrt (sum_list (map (\<lambda>x. x\<^sup>2) (concat p)))"

text \<open>
  \<^verbatim>\<open>BPRLoss.forward\<close> on rank-1 \<^verbatim>\<open>positives\<close> and \<^verbatim>\<open>negatives\<close>. The regularisation
  term divides by \<^verbatim>\<open>positives.size(0)\<close>; when that is 0 the difference is empty
  and the result is \<^verbatim>\<open>nan\<close> whatever the term is.
\<close>

definition regularization :: "real \<Rightarrow> vec \<Rightarrow> mat option \<Rightarrow> error + real" where
  "regularization lambda_reg positives parameters =
     (if lambda_reg \<noteq> 0 then
        (case parameters of
           None \<Rightarrow> Inl AttributeError
         | Some p \<Rightarrow> Inr (lambda_reg * (norm2 p)\<^sup>2 / real (length positives)))
      else Inr 0)"

definition BPRLoss_forward :: "real \<Rightarrow> vec \<Rightarrow> vec \<Rightarrow> mat option \<Rightarrow> error + scalar" where
  "BPRLoss_forward lambda_reg positives negatives parameters =
     bindE (broadcast_row (-) positives negatives) (\<lambda>diff.
     bindE (regularization lambda_reg positives parameters) (\<lambda>reg.
       Inr (case mean (map logsigmoid diff) of
              NaN \<Rightarrow> NaN
            | Finite log_prob \<Rightarrow> Finite (- log_prob + reg))))"

definition recommendation_loss ::
  "model \<Rightarrow> vec \<Rightarrow> vec \<Rightarrow> int list option \<Rightarrow> real \<Rightarrow> error + scalar" where
  "recommendation_loss m pos_edge_rank neg_edge_rank node_id lambda_reg =
     bindE (case node_id of
              None \<Rightarrow> Inr (embedding m)
            | Some ids \<Rightarrow> index_select (embedding m) ids) (\<lambda>emb.
       BPRLoss_forward lambda_reg pos_edge_rank neg_edge_rank (Some emb))"

text \<open>The positions that index a tensor with \<open>n\<close> rows without raising.\<close>

definition valid_index :: "nat \<Rightarrow> int \<Rightarrow> bool" where
  "valid_index n i = (- int n \<le> i \<and> i < int n)"

section \<open>The score of an edge, as specified\<close>

text \<open>
  The specification's score of a labelled edge \<open>(s, d)\<close>, written from its words:
  \<^verbatim>\<open>dot(embedding[s], embedding[d]) + bias[d]\<close>, for the final embeddings \<open>out\<close>
  and the \<open>num_nodes \<times> 1\<close> bias table \<open>b\<close>.
\<close>

definition edge_score :: "mat \<Rightarrow> mat \<Rightarrow> int \<times> int \<Rightarrow> real" where
  "edge_score out b e = dot (out ! nat (fst e)) (out ! nat (snd e)) + hd (b ! nat (snd e))"

section \<open>A small instance\<close>

text \<open>
  Four nodes, two users then two items, embedding dimension 2, one propagation
  layer. In the graph every node has exactly one neighbour (0 and 2, 1 and 3), so
  every normalisation weight of \<^verbatim>\<open>LGConv\<close> is 1 and the layer replaces each row by
  the row of the neighbour: \<open>demo_conv\<close> is \<^verbatim>\<open>LGConv\<close> on this graph.
\<close>

definition demo_model :: model where
  "demo_model =
     \<lparr>num_nodes = 4, embedding_dim = 2, num_layers = 1, alpha = [1 / 2, 1 / 2],
      embedding = [[2, 0], [0, 1], [4, 8], [0, 1]],
      beta = [[1], [2], [3], [5]]\<rparr>"

definition demo_graph :: adj where
  "demo_graph = EdgeIndex [(0, 2), (2, 0), (1, 3), (3, 1)]"

definition demo_conv :: lgconv where
  "demo_conv x g w =
     (case x of [r0, r1, r2, r3] \<Rightarrow> Inr [r2, r3, r0, r1] | _ \<Rightarrow> Inl RuntimeError)"

text \<open>Two positive edges followed by two negative edges.\<close>

definition demo_edges :: "(int \<times> int) list" where
  "demo_edges = [(0, 2), (1, 3), (0, 3), (1, 2)]"

text \<open>
  The same model with a zero embedding for item 2 and for user 0, its only
  neighbour: the mixed row of item 2 is the zero vector.
\<close>

definition zero_item_model :: model where
  "zero_item_model = demo_model\<lparr>embedding := [[0, 0], [0, 1], [0, 0], [0, 1]]\<rparr>"

section \<open>The tensors of the model in a store\<close>

text \<open>
  To follow which tensors a method writes, the tensors live in a store: an
  address is a position in the list of rank-1 or of rank-2 tensors. A tensor
  that an operation returns is a new cell at the end; an operation that works in
  place, such as \<^verbatim>\<open>xavier_uniform_\<close>, overwrites the cell of its argument.
\<close>

record store =
  vecs :: "vec list"
  mats :: "mat list"

text \<open>
  The module object: its integer attributes and the addresses of the buffer
  \<^verbatim>\<open>alpha\<close> and of the weights \<^verbatim>\<open>embedding.weight\<close> and \<^verbatim>\<open>beta.weight\<close>.
\<close>

record module =
  nodes :: int
  dim :: int
  layers_count :: int
  alpha_at :: nat
  embedding_at :: nat
  beta_at :: nat

text \<open>
  The model that a module denotes in a store: the record the functions of the
  preceding sections work on.
\<close>

definition model_of :: "module \<Rightarrow> store \<Rightarrow> model" where
  "model_of md s =
     \<lparr>num_nodes = nodes md, embedding_dim = dim md, num_layers = layers_count md,
      alpha = vecs s ! alpha_at md, embedding = mats s ! embedding_at md,
      beta = mats s ! beta_at md\<rparr>"

text \<open>
  A statement maps a store to a result, an exception or a value, and the store
  after it.
\<close>

type_synonym 'a st = "store \<Rightarrow> (error + 'a) \<times> store"

definition returnS :: "'a \<Rightarrow> 'a st" where
  "returnS v s = (Inr v, s)"

definition liftS :: "error + 'a \<Rightarrow> 'a st" where
  "liftS r s = (r, s)"

definition bindS :: "'a st \<Rightarrow> ('a \<Rightarrow> 'b st) \<Rightarrow> 'b st" where
  "bindS c f s = (case c s of (Inl e, s') \<Rightarrow> (Inl e, s') | (Inr v, s') \<Rightarrow> f v s')"

text \<open>
Reading the tensor at an address (a name bound to an existing tensor).
\<close>

definition get_vec :: "nat \<Rightarrow> vec st" where
  "get_vec a s = (Inr (vecs s ! a), s)"

definition get_mat :: "nat \<Rightarrow> mat st" where
  "get_mat a s = (Inr (mats s ! a), s)"

text \<open>
  The result of an operation that returns a new tensor (\<^verbatim>\<open>x * a\<close>, \<^verbatim>\<open>out + y\<close>,
  a layer, an indexing \<^verbatim>\<open>t[idx]\<close>, \<^verbatim>\<open>F.normalize\<close>, \<^verbatim>\<open>torch.cat\<close>, a sum): a
  fresh cell, unless the operation raised. The views that \<^verbatim>\<open>torch.split\<close> and
  \<^verbatim>\<open>chunk\<close> return are parts of a tensor that the method itself created, and are
  values here.
\<close>

definition new_vec :: "error + vec \<Rightarrow> nat st" where
  "new_vec r s =
     (case r of Inl e \<Rightarrow> (Inl e, s)
      | Inr t \<Rightarrow> (Inr (length (vecs s)), s\<lparr>vecs := vecs s @ [t]\<rparr>))"

definition new_mat :: "error + mat \<Rightarrow> nat st" where
  "new_mat r s =
     (case r of Inl e \<Rightarrow> (Inl e, s)
      | Inr t \<Rightarrow> (Inr (length (mats s)), s\<lparr>mats := mats s @ [t]\<rparr>))"

text \<open>
Writing a tensor in place.
\<close>

definition fill_mat :: "nat \<Rightarrow> mat \<Rightarrow> unit st" where
  "fill_mat a t s = (Inr (), s\<lparr>mats := (mats s)[a := t]\<rparr>)"

text \<open>
  \<^verbatim>\<open>get_embedding\<close>, statement by statement. The name \<^verbatim>\<open>x\<close> first is the weight
  \<^verbatim>\<open>self.embedding.weight\<close> itself (line 46), then the result of a layer.
\<close>

fun layers_st ::
  "lgconv \<Rightarrow> adj \<Rightarrow> real list option \<Rightarrow> real list \<Rightarrow> nat \<Rightarrow> nat \<Rightarrow> nat \<Rightarrow> nat \<Rightarrow> nat st"
  where
  "layers_st conv g w al i 0 x out = returnS out"
| "layers_st conv g w al i (Suc k) x out =
     bindS (get_mat x) (\<lambda>xv.
     bindS (new_mat (conv xv g w)) (\<lambda>x'.
     bindS (liftS (getitem al (int i + 1))) (\<lambda>a.
     bindS (get_mat x') (\<lambda>xv'.
     bindS (new_mat (Inr (scale xv' a))) (\<lambda>xa.
     bindS (get_mat out) (\<lambda>ov.
     bindS (get_mat xa) (\<lambda>xav.
     bindS (new_mat (mat_add ov xav)) (\<lambda>out'.
       layers_st conv g w al (Suc i) k x' out'))))))))"

definition get_embedding_st ::
  "module \<Rightarrow> lgconv \<Rightarrow> adj \<Rightarrow> real list option \<Rightarrow> int option \<Rightarrow> int option \<Rightarrow> real option
     \<Rightarrow> nat st" where
  "get_embedding_st md conv edge_index edge_weight num_users num_items scaling_factor =
     bindS (returnS (embedding_at md)) (\<lambda>x.
     bindS (get_vec (alpha_at md)) (\<lambda>al.
     bindS (liftS (getitem al 0)) (\<lambda>a0.
     bindS (get_mat x) (\<lambda>xv.
     bindS (new_mat (Inr (scale xv a0))) (\<lambda>out.
     bindS (layers_st conv edge_index edge_weight al 0 (nat (layers_count md)) x out) (\<lambda>out.
     bindS (get_mat out) (\<lambda>ov.
     bindS (liftS (split ov num_users num_items)) (\<lambda>(user_emb, item_emb).
     bindS (new_mat (Inr (normalize item_emb))) (\<lambda>nrm.
     bindS (get_mat nrm) (\<lambda>nv.
     bindS (new_mat (mul_factor nv scaling_factor)) (\<lambda>item_emb'.
     bindS (get_mat item_emb') (\<lambda>iv.
       new_mat (Inr (user_emb @ iv))))))))))))))"

text \<open>
\<^verbatim>\<open>forward\<close>, statement by statement; \<open>b\<close> is the address of \<^verbatim>\<open>self.beta.weight\<close>.
\<close>

definition score_edges_st :: "nat \<Rightarrow> nat \<Rightarrow> (int \<times> int) list \<Rightarrow> (nat \<times> nat) st" where
  "score_edges_st out b eli =
     bindS (get_mat out) (\<lambda>ov.
     bindS (new_mat (index_select ov (map fst eli))) (\<lambda>out_src.
     bindS (new_mat (index_select ov (map snd eli))) (\<lambda>out_dst.
     bindS (get_mat out_src) (\<lambda>sv.
     bindS (get_mat out_dst) (\<lambda>dv.
     bindS (new_vec (Inr (map2 dot sv dv))) (\<lambda>pos_neg_rank.
     bindS (get_vec pos_neg_rank) (\<lambda>pnv.
     bindS (liftS (chunk2 pnv)) (\<lambda>(pos_rank, neg_rank).
     bindS (liftS (chunk2 (map snd eli))) (\<lambda>(pos_item, neg_item).
     bindS (get_mat b) (\<lambda>bv.
     bindS (new_mat (index_select bv pos_item)) (\<lambda>pos_beta.
     bindS (get_mat pos_beta) (\<lambda>pbv.
     bindS (new_mat (vec_add_mat pos_rank pbv)) (\<lambda>pos_rank'.
     bindS (get_mat b) (\<lambda>bv'.
     bindS (new_mat (index_select bv' neg_item)) (\<lambda>neg_beta.
     bindS (get_mat neg_beta) (\<lambda>nbv.
     bindS (new_mat (vec_add_mat neg_rank nbv)) (\<lambda>neg_rank'.
       returnS (pos_rank', neg_rank'))))))))))))))))))"

definition forward_st ::
  "module \<Rightarrow> lgconv \<Rightarrow> adj \<Rightarrow> (int \<times> int) list option \<Rightarrow> int option \<Rightarrow> int option
     \<Rightarrow> real option \<Rightarrow> real list option \<Rightarrow> (nat \<times> nat) st" where
  "forward_st md conv edge_index edge_label_index num_users num_items scaling_factor edge_weight =
     (let eli = (case edge_label_index of
                   None \<Rightarrow> (if is_sparse edge_index then to_edge_index edge_index
                            else index_tensor edge_index)
                 | Some e \<Rightarrow> e)
      in
       bindS (get_embedding_st md conv edge_index edge_weight num_users num_items scaling_factor)
         (\<lambda>out. score_edges_st out (beta_at md) eli))"

text \<open>
  \<^verbatim>\<open>recommendation_loss\<close> on the tensors at the addresses \<^verbatim>\<open>pos_edge_rank\<close> and
  \<^verbatim>\<open>neg_edge_rank\<close>: \<^verbatim>\<open>emb\<close> is the weight itself, or a new tensor \<^verbatim>\<open>emb[node_id]\<close>;
  \<^verbatim>\<open>BPRLoss.forward\<close> only reads its arguments and returns a scalar.
\<close>

definition recommendation_loss_st ::
  "module \<Rightarrow> nat \<Rightarrow> nat \<Rightarrow> int list option \<Rightarrow> real \<Rightarrow> scalar st" where
  "recommendation_loss_st md pos_edge_rank neg_edge_rank node_id lambda_reg =
     bindS (returnS (embedding_at md)) (\<lambda>emb.
     bindS (case node_id of
              None \<Rightarrow> returnS emb
            | Some ids \<Rightarrow> bindS (get_mat emb) (\<lambda>ev. new_mat (index_select ev ids))) (\<lambda>emb.
     bindS (get_vec pos_edge_rank) (\<lambda>pv.
     bindS (get_vec neg_edge_rank) (\<lambda>nv.
     bindS (get_mat emb) (\<lambda>ev.
       liftS (BPRLoss_forward lambda_reg pv nv (Some ev)))))))"

text \<open>
  \<^verbatim>\<open>reset_parameters\<close> fills the two weights in place (the layers have nothing
  to reset).
\<close>

definition reset_parameters_st ::
  "module \<Rightarrow> (nat \<Rightarrow> nat \<Rightarrow> real) \<Rightarrow> (nat \<Rightarrow> nat \<Rightarrow> real) \<Rightarrow> unit st" where
  "reset_parameters_st md draw_e draw_b =
     bindS (get_mat (embedding_at md)) (\<lambda>ev.
     bindS (liftS (xavier_uniform draw_e (length ev, nat (dim md)))) (\<lambda>w.
     bindS (fill_mat (embedding_at md) w) (\<lambda>_.
     bindS (get_mat (beta_at md)) (\<lambda>bv.
     bindS (liftS (xavier_uniform draw_b (length bv, 1))) (\<lambda>b.
       fill_mat (beta_at md) b)))))"

text \<open>
  A store extends another when it has the same cells at the same addresses, and
  possibly more; a statement allocates when the store after it extends the
  store before it, whatever the result.
\<close>

definition extends :: "store \<Rightarrow> store \<Rightarrow> bool" where
  "extends s s' = (prefix (vecs s) (vecs s') \<and> prefix (mats s) (mats s'))"

definition allocates :: "'a st \<Rightarrow> bool" where
  "allocates c = (\<forall>s. extends s (snd (c s)))"

text \<open>
The small instance as a module and a store; cells 1 and 2 hold two rank vectors.
\<close>

definition demo_module :: module where
  "demo_module =
     \<lparr>nodes = 4, dim = 2, layers_count = 1, alpha_at = 0, embedding_at = 0, beta_at = 1\<rparr>"

definition demo_store :: store where
  "demo_store =
     \<lparr>vecs = [[1 / 2, 1 / 2], [2, 1], [0, 1]],
      mats = [[[2, 0], [0, 1], [4, 8], [0, 1]], [[1], [2], [3], [5]]]\<rparr>"

section \<open>The loss in single precision\<close>

text \<open>
  The tensors of the program hold IEEE single-precision numbers, not reals. A
  single-precision number is a real here, and an operation rounds its exact
  result to the nearest one, ties to the even neighbour: \<open>rne\<close> rounds to an
  integer, \<open>ulp32\<close> is the spacing of the single-precision numbers around \<open>x\<close>
  (\<^verbatim>\<open>2^-149\<close> below the smallest normal number \<^verbatim>\<open>2^-126\<close>, and 24 significant
  bits above it), and \<open>fl32\<close> rounds a real of magnitude below \<^verbatim>\<open>2^128\<close>.
\<close>

definition rne :: "real \<Rightarrow> int" where
  "rne r =
     (if r - of_int \<lfloor>r\<rfloor> < 1 / 2 then \<lfloor>r\<rfloor>
      else if 1 / 2 < r - of_int \<lfloor>r\<rfloor> then \<lfloor>r\<rfloor> + 1
      else if even \<lfloor>r\<rfloor> then \<lfloor>r\<rfloor> else \<lfloor>r\<rfloor> + 1)"

definition ulp32 :: "real \<Rightarrow> real" where
  "ulp32 x =
     (if \<bar>x\<bar> < 2 powr (- 126) then 2 powr (- 149)
      else 2 powr (of_int \<lfloor>log 2 \<bar>x\<bar>\<rfloor> - 23))"

definition fl32 :: "real \<Rightarrow> real" where
  "fl32 x = of_int (rne (x / ulp32 x)) * ulp32 x"

text \<open>
  \<^verbatim>\<open>F.logsigmoid\<close> computes \<^verbatim>\<open>min(x, 0) - log1p(exp(-|x|))\<close>; its \<^verbatim>\<open>exp\<close> and
  \<^verbatim>\<open>log1p\<close> are taken as correctly rounded.
\<close>

definition exp32 :: "real \<Rightarrow> real" where
  "exp32 x = fl32 (exp x)"

definition log1p32 :: "real \<Rightarrow> real" where
  "log1p32 x = fl32 (ln (1 + x))"

definition logsigmoid32 :: "real \<Rightarrow> real" where
  "logsigmoid32 x = fl32 (min x 0 - log1p32 (exp32 (- \<bar>x\<bar>)))"

text \<open>
  \<^verbatim>\<open>t.mean()\<close>: the sum, here accumulated from left to right (torch does not fix
  the order; a tensor with one entry leaves no choice), divided by the length.
\<close>

definition sum32 :: "vec \<Rightarrow> real" where
  "sum32 v = foldl (\<lambda>a b. fl32 (a + b)) 0 v"

definition mean32 :: "vec \<Rightarrow> scalar" where
  "mean32 v = (if v = [] then NaN else Finite (fl32 (sum32 v / real (length v))))"

text \<open>
  \<^verbatim>\<open>BPRLoss.forward\<close> with \<^verbatim>\<open>lambda_reg = 0\<close>, the default of \<^verbatim>\<open>BPRLoss\<close>, on rank-1
  single-precision tensors: lines 131, 133 and 138.
\<close>

definition BPRLoss_forward32 :: "vec \<Rightarrow> vec \<Rightarrow> error + scalar" where
  "BPRLoss_forward32 positives negatives =
     bindE (broadcast_row (\<lambda>p n. fl32 (p - n)) positives negatives) (\<lambda>diff.
       Inr (case mean32 (map logsigmoid32 diff) of
              NaN \<Rightarrow> NaN
            | Finite log_prob \<Rightarrow> Finite (fl32 (- log_prob + 0))))"

section \<open>Basic facts about failing computations\<close>

lemma bindE_Inr [simp]: "bindE (Inr v) f = f v"
  by (simp add: bindE_def)

lemma bindE_Inl [simp]: "bindE (Inl e) f = Inl e"
  by (simp add: bindE_def)

lemma bindE_eq_Inr: "bindE r f = Inr y \<longleftrightarrow> (\<exists>v. r = Inr v \<and> f v = Inr y)"
  by (cases r) simp_all

section \<open>Construction\<close>

lemma Embedding_ok: "0 \<le> r \<Longrightarrow> 0 \<le> c \<Longrightarrow> Embedding r c = Inr (nat r, nat c)"
  by (simp add: Embedding_def)

lemma xavier_uniform_ok:
  "0 < r + c \<Longrightarrow> xavier_uniform draw (r, c) = Inr (map (\<lambda>i. map (\<lambda>j. draw i j) [0..<c]) [0..<r])"
  by (simp add: xavier_uniform_def)

lemma init_with_buffer:
  assumes "default_alpha L a = Inr a1" and "alpha_buffer L a1 = Inr al"
    and "0 \<le> n" and "0 \<le> d" and "0 < n + d"
  shows "\<exists>m. init n d L a draw_e draw_b = Inr m \<and> alpha m = al"
proof -
  have e: "0 < nat n + nat d" using assms by linarith
  have b: "0 < nat n + nat 1" by simp
  show ?thesis
    using assms(3,4) e
    by (simp add: init_def assms(1,2) Embedding_ok xavier_uniform_ok)
qed

text \<open>
  Claim C6. An alpha tensor whose length differs from \<open>num_layers + 1\<close> makes the
  constructor fail, on the \<^verbatim>\<open>assert\<close> of line 27. An alpha tensor of length exactly
  \<open>num_layers + 1\<close> is stored as it is, and the construction succeeds, for sizes
  the embedding tables can be built with (non-negative, not both zero).
\<close>

theorem init_alpha_tensor:
  "(int (length t) \<noteq> L + 1 \<longrightarrow> init n d L (AlphaTensor t) draw_e draw_b = Inl AssertionError) \<and>
   (int (length t) = L + 1 \<and> 0 \<le> n \<and> 0 \<le> d \<and> 0 < n + d \<longrightarrow>
      (\<exists>m. init n d L (AlphaTensor t) draw_e draw_b = Inr m \<and> alpha m = t))"
proof (intro conjI impI)
  assume "int (length t) \<noteq> L + 1"
  then show "init n d L (AlphaTensor t) draw_e draw_b = Inl AssertionError"
    by (simp add: init_def default_alpha_def alpha_buffer_def)
next
  assume h: "int (length t) = L + 1 \<and> 0 \<le> n \<and> 0 \<le> d \<and> 0 < n + d"
  have 1: "default_alpha L (AlphaTensor t) = Inr (AlphaTensor t)"
    by (simp add: default_alpha_def)
  have 2: "alpha_buffer L (AlphaTensor t) = Inr t"
    using h by (simp add: alpha_buffer_def)
  show "\<exists>m. init n d L (AlphaTensor t) draw_e draw_b = Inr m \<and> alpha m = t"
    using init_with_buffer [OF 1 2] h by blast
qed

theorem init_alpha_tensor_witness:
  "init 4 2 1 (AlphaTensor [1, 2, 3]) (\<lambda>i j. 0) (\<lambda>i j. 0) = Inl AssertionError \<and>
   (\<exists>m. init 4 2 1 (AlphaTensor [1 / 4, 3 / 4]) (\<lambda>i j. 0) (\<lambda>i j. 0) = Inr m \<and> alpha m = [1 / 4, 3 / 4])"
  using init_alpha_tensor [of "[1, 2, 3]" 1 4 2 "\<lambda>i j. 0" "\<lambda>i j. 0"]
    init_alpha_tensor [of "[1 / 4, 3 / 4]" 1 4 2 "\<lambda>i j. 0" "\<lambda>i j. 0"]
  by simp

lemma sum_list_replicate_real: "sum_list (replicate k (c::real)) = real k * c"
  by (induction k) (simp_all add: algebra_simps)

text \<open>
  Claim C9. With no alpha supplied and \<open>num_layers \<ge> 0\<close>, the stored alpha has
  \<open>num_layers + 1\<close> entries, each equal to \<open>1 / (num_layers + 1)\<close>, and they sum to 1.
\<close>

theorem init_default_alpha:
  assumes "0 \<le> L" and "0 \<le> n" and "0 \<le> d" and "0 < n + d"
  shows "\<exists>m. init n d L AlphaNone draw_e draw_b = Inr m \<and>
           int (length (alpha m)) = L + 1 \<and>
           list_all (\<lambda>a. a = 1 / real_of_int (L + 1)) (alpha m) \<and>
           sum_list (alpha m) = 1"
proof -
  let ?c = "1 / real_of_int (L + 1)"
  have 1: "default_alpha L AlphaNone = Inr (AlphaFloat ?c)"
    using assms(1) by (simp add: default_alpha_def)
  have 2: "alpha_buffer L (AlphaFloat ?c) = Inr (replicate (nat (L + 1)) ?c)"
    by (simp add: alpha_buffer_def)
  obtain m where m: "init n d L AlphaNone draw_e draw_b = Inr m"
    and a: "alpha m = replicate (nat (L + 1)) ?c"
    using init_with_buffer [OF 1 2 assms(2,3,4)] by blast
  have len: "int (length (alpha m)) = L + 1" using assms(1) by (simp add: a)
  have all: "list_all (\<lambda>a. a = ?c) (alpha m)" by (simp add: a list_all_iff)
  have "sum_list (alpha m) = real (nat (L + 1)) * ?c"
    by (simp add: a sum_list_replicate_real)
  also have "\<dots> = 1" using assms(1) by simp
  finally show ?thesis using m len all by blast
qed

theorem init_default_alpha_witness:
  "\<exists>m. init 4 2 3 AlphaNone (\<lambda>i j. 0) (\<lambda>i j. 0) = Inr m \<and>
           int (length (alpha m)) = 4 \<and>
           list_all (\<lambda>a. a = 1 / 4) (alpha m) \<and>
           sum_list (alpha m) = 1"
  using init_default_alpha [of 3 4 2 "\<lambda>i j. 0" "\<lambda>i j. 0"] by simp

section \<open>The small instance, evaluated\<close>

lemma sqrt_25: "sqrt 25 = 5"
  using real_sqrt_abs [of 5] by simp

lemma demo_propagate:
  "propagate demo_model demo_conv demo_graph None = Inr [[3, 4], [0, 1], [3, 4], [0, 1]]"
  by (simp add: propagate_def demo_model_def demo_conv_def getitem_def scale_def
      mat_add_def broadcast2_def broadcast_row_def)

lemma demo_get_embedding:
  "get_embedding demo_model demo_conv demo_graph None (Some 2) (Some 2) (Some 10)
     = Inr [[3, 4], [0, 1], [6, 8], [0, 10]]"
  by (simp add: get_embedding_def demo_propagate split_def mul_factor_def normalize_def
      l2norm_def eps_def scale_def sqrt_25)

lemma demo_beta: "beta demo_model = [[1], [2], [3], [5]]"
  by (simp add: demo_model_def)

lemma demo_forward:
  "forward demo_model demo_conv demo_graph (Some demo_edges) (Some 2) (Some 2) (Some 10) None
     = Inr ([[53, 13], [55, 15]], [[45, 13], [43, 11]])"
  by (simp add: forward_def score_edges_def demo_get_embedding demo_edges_def getitem_def
      dot_def chunk2_def vec_add_mat_def broadcast2_def broadcast_row_def demo_beta)

section \<open>Edge scoring\<close>

text \<open>
  The shape of what \<^verbatim>\<open>forward\<close> returns: a rank-1 tensor of length \<open>n\<close> plus an
  \<open>n \<times> 1\<close> tensor is an \<open>n \<times> n\<close> tensor, so for \<open>2n\<close> labelled edges both
  components have \<open>n\<close> rows of \<open>n\<close> entries.
\<close>

lemma broadcast_rows_column:
  assumes "list_all (\<lambda>r. length r = 1) c" and "length v \<noteq> 1"
  shows "\<exists>r. broadcast_rows (+) (replicate (length c) v) c = Inr r \<and> length r = length c \<and>
           list_all (\<lambda>row. length row = length v) r"
  using assms(1)
proof (induction c)
  case Nil
  then show ?case by simp
next
  case (Cons x c)
  then obtain r where r: "broadcast_rows (+) (replicate (length c) v) c = Inr r"
    "length r = length c" "list_all (\<lambda>row. length row = length v) r"
    by auto
  have "length x = 1" using Cons.prems by simp
  then have "broadcast_row (+) v x = Inr (map (\<lambda>a. a + hd x) v)"
    using assms(2) by (simp add: broadcast_row_def)
  then show ?case using r by simp
qed

lemma vec_add_mat_shape:
  assumes "length c = length v" and "list_all (\<lambda>r. length r = 1) c"
  shows "\<exists>r. vec_add_mat v c = Inr r \<and> length r = length v \<and>
           list_all (\<lambda>row. length row = length v) r"
proof (cases "length v = 1")
  case True
  then obtain a where v: "v = [a]" by (cases v) auto
  obtain x where c: "c = [[x]]"
    using assms True by (cases c; cases "hd c"; cases "tl (hd c)") auto
  show ?thesis by (simp add: v c vec_add_mat_def broadcast2_def broadcast_row_def)
next
  case False
  then have "vec_add_mat v c = broadcast_rows (+) (replicate (length c) v) c"
    using assms(1) by (simp add: vec_add_mat_def broadcast2_def)
  then show ?thesis using broadcast_rows_column [OF assms(2) False] assms(1) by simp
qed


lemma getitem_in_set: "getitem xs i = Inr r \<Longrightarrow> r \<in> set xs"
  by (auto simp: getitem_def split: if_splits)

lemma index_select_Inr:
  "index_select xs ids = Inr rs \<Longrightarrow> length rs = length ids \<and> set rs \<subseteq> set xs"
proof (induction ids arbitrary: rs)
  case Nil
  then show ?case by simp
next
  case (Cons i ids)
  then obtain r rs' where "getitem xs i = Inr r" "index_select xs ids = Inr rs'" "rs = r # rs'"
    by (auto simp: bindE_eq_Inr)
  then show ?case using Cons.IH [of rs'] getitem_in_set [of xs i r] by simp
qed

lemma chunk2_even:
  assumes "length t = 2 * n" and "chunk2 t = Inr (a, b)"
  shows "length a = n \<and> length b = n"
  using assms by (auto simp: chunk2_def split: if_splits)

lemma score_edges_shape:
  assumes "score_edges out b eli = Inr (p, q)"
    and "length eli = 2 * n"
    and "list_all (\<lambda>r. length r = 1) b"
  shows "length p = n \<and> list_all (\<lambda>row. length row = n) p \<and>
         length q = n \<and> list_all (\<lambda>row. length row = n) q"
proof -
  obtain out_src out_dst pos_rank neg_rank pos_item neg_item pos_beta neg_beta where
    s: "index_select out (map fst eli) = Inr out_src"
    and d: "index_select out (map snd eli) = Inr out_dst"
    and c1: "chunk2 (map2 dot out_src out_dst) = Inr (pos_rank, neg_rank)"
    and c2: "chunk2 (map snd eli) = Inr (pos_item, neg_item)"
    and pb: "index_select b pos_item = Inr pos_beta"
    and pr: "vec_add_mat pos_rank pos_beta = Inr p"
    and nb: "index_select b neg_item = Inr neg_beta"
    and nr: "vec_add_mat neg_rank neg_beta = Inr q"
    using assms(1) by (auto simp: score_edges_def bindE_eq_Inr)
  have "length (map2 dot out_src out_dst) = 2 * n"
    using index_select_Inr [OF s] index_select_Inr [OF d] assms(2) by simp
  then have lr: "length pos_rank = n" "length neg_rank = n"
    using chunk2_even [OF _ c1] by simp_all
  have li: "length pos_item = n" "length neg_item = n"
    using chunk2_even [OF _ c2] assms(2) by simp_all
  have ones: "list_all (\<lambda>r. length r = 1) pos_beta" "list_all (\<lambda>r. length r = 1) neg_beta"
    using index_select_Inr [OF pb] index_select_Inr [OF nb] assms(3)
    by (auto simp: list_all_iff)
  have lb: "length pos_beta = length pos_rank" "length neg_beta = length neg_rank"
    using index_select_Inr [OF pb] index_select_Inr [OF nb] lr li by simp_all
  show ?thesis
    using vec_add_mat_shape [OF lb(1) ones(1)] vec_add_mat_shape [OF lb(2) ones(2)] pr nr lr
    by auto
qed

text \<open>
  Claim C1 says that \<^verbatim>\<open>forward\<close> on \<open>2n\<close> labelled edges returns two vectors of
  length \<open>n\<close>. On the instance, with \<open>2 * 2\<close> labelled edges, each component is a
  \<open>2 \<times> 2\<close> matrix: \<^verbatim>\<open>self.beta.weight[pos_item]\<close> has shape \<open>n \<times> 1\<close>, and adding it
  to the rank-1 \<^verbatim>\<open>pos_rank\<close> broadcasts to \<open>n \<times> n\<close>.
\<close>

theorem forward_demo_shape:
  "length demo_edges = 2 * 2 \<and>
   (\<exists>pos_rank neg_rank.
      forward demo_model demo_conv demo_graph (Some demo_edges) (Some 2) (Some 2) (Some 10) None
        = Inr (pos_rank, neg_rank) \<and>
      map length pos_rank = [2, 2] \<and> map length neg_rank = [2, 2])"
  using demo_forward by (simp add: demo_edges_def)

text \<open>
  Claim C3 says that the score of a labelled edge \<open>(s, d)\<close> is the dot product of
  the two final embeddings plus the bias of \<open>d\<close>: on the instance 53 and 15 for the
  positive edges, 45 and 11 for the negative ones. \<^verbatim>\<open>forward\<close> returns them on the
  diagonals only; entry \<open>(i, j)\<close> of a returned matrix is the dot product of edge
  \<open>j\<close> plus the bias of the destination of edge \<open>i\<close>.
\<close>

theorem forward_demo_scores:
  "forward demo_model demo_conv demo_graph (Some demo_edges) (Some 2) (Some 2) (Some 10) None
     = Inr ([[53, 13], [55, 15]], [[45, 13], [43, 11]]) \<and>
   map (edge_score [[3, 4], [0, 1], [6, 8], [0, 10]] (beta demo_model)) demo_edges
     = [53, 15, 45, 11]"
  using demo_forward by (simp add: demo_edges_def edge_score_def dot_def demo_beta)

section \<open>Top-k retrieval\<close>

text \<open>
  \<^verbatim>\<open>recommend\<close> calls \<^verbatim>\<open>get_embedding\<close> without the partition sizes, so the split of
  line 53 gets \<^verbatim>\<open>[None, None]\<close>: no call of \<^verbatim>\<open>recommend\<close> returns.
\<close>

lemma get_embedding_no_sizes:
  "get_embedding m conv g w None num_items scaling_factor
     = (case propagate m conv g w of Inl e \<Rightarrow> Inl e | Inr out \<Rightarrow> Inl TypeError)"
  by (simp add: get_embedding_def split_def bindE_def split: sum.splits)

lemma recommend_never_returns:
  "recommend m conv g w src_index dst_index k sorted_flag \<noteq> Inr top_index"
  by (simp add: recommend_def get_embedding_no_sizes bindE_def split: sum.splits)

text \<open>
  Claim C2 says that \<^verbatim>\<open>recommend\<close> completes for every \<open>k \<ge> 1\<close> and returns the
  arg-max columns for \<open>k = 1\<close>. On the instance, with \<open>k = 1\<close> and no index subsets,
  it raises TypeError.
\<close>

theorem recommend_demo_raises:
  "recommend demo_model demo_conv demo_graph None None None 1 True = Inl TypeError"
  by (simp add: recommend_def get_embedding_no_sizes demo_propagate)

section \<open>Normalisation of the item block\<close>













section \<open>The partition check\<close>

lemma broadcast_rows_length:
  "broadcast_rows f x y = Inr r \<Longrightarrow> length r = length x"
proof (induction f x y arbitrary: r rule: broadcast_rows.induct)
  case (1 f)
  then show ?case by simp
next
  case (2 f a as b bs)
  then show ?case by (auto simp: bindE_eq_Inr)
qed simp_all

lemma mat_add_length:
  assumes "mat_add x y = Inr r" and "length x = length y"
  shows "length r = length x"
  using assms by (simp add: mat_add_def broadcast2_def broadcast_rows_length)

lemma layers_length:
  assumes "layers conv g w al i k x out = Inr acc"
    and "\<forall>x y. conv x g w = Inr y \<longrightarrow> length y = length x"
    and "length out = length x"
  shows "length acc = length x"
  using assms
proof (induction k arbitrary: i x out)
  case 0
  then show ?case by simp
next
  case (Suc k)
  from Suc.prems(1) obtain x' a out' where c: "conv x g w = Inr x'"
    and s: "mat_add out (scale x' a) = Inr out'"
    and r: "layers conv g w al (Suc i) k x' out' = Inr acc"
    by (auto simp: bindE_eq_Inr)
  have lx: "length x' = length x" using Suc.prems(2) c by blast
  have "length out = length (scale x' a)" using lx Suc.prems(3) by (simp add: scale_def)
  then have lo: "length out' = length x'" using mat_add_length [OF s] lx Suc.prems(3) by simp
  show ?case using Suc.IH [OF r Suc.prems(2) lo] lx by simp
qed

lemma propagate_length:
  assumes "propagate m conv g w = Inr acc"
    and "\<forall>x y. conv x g w = Inr y \<longrightarrow> length y = length x"
  shows "length acc = length (embedding m)"
proof -
  obtain a0 where l:
    "layers conv g w (alpha m) 0 (nat (num_layers m)) (embedding m) (scale (embedding m) a0)
       = Inr acc"
    using assms(1) by (auto simp: propagate_def bindE_eq_Inr)
  show ?thesis using layers_length [OF l assms(2)] by (simp add: scale_def)
qed

text \<open>
  Claim C5. When \<open>num_users + num_items\<close> differs from \<open>num_nodes\<close>, a call of
  \<^verbatim>\<open>get_embedding\<close> fails: when the propagation loop, which runs first, returns,
  the split of line 53, the first use of the two sizes, raises the RuntimeError
  of \<^verbatim>\<open>torch.split\<close>, whatever the scaling factor is; when the loop raises, the
  call raises that exception. The layer keeps the number of rows, and the table
  of the model has \<open>num_nodes\<close> rows.
\<close>

theorem partition_mismatch_raises:
  assumes "\<forall>x y. conv x g w = Inr y \<longrightarrow> length y = length x"
    and "int (length (embedding m)) = num_nodes m"
    and "u + i \<noteq> num_nodes m"
  shows "get_embedding m conv g w (Some u) (Some i) scaling_factor
           = (case propagate m conv g w of Inl e \<Rightarrow> Inl e | Inr acc \<Rightarrow> Inl RuntimeError)"
proof (cases "propagate m conv g w")
  case (Inl e)
  then show ?thesis by (simp add: get_embedding_def)
next
  case (Inr acc)
  have "int (length acc) = num_nodes m"
    using propagate_length [OF Inr assms(1)] assms(2) by simp
  then have "split acc (Some u) (Some i) = Inl RuntimeError"
    using assms(3) by (simp add: split_def)
  then show ?thesis by (simp add: get_embedding_def Inr)
qed

lemma demo_conv_length: "\<forall>x y. demo_conv x g w = Inr y \<longrightarrow> length y = length x"
  by (auto simp: demo_conv_def split: list.splits)

theorem partition_mismatch_raises_witness:
  "int (length (embedding demo_model)) = num_nodes demo_model \<and>
   1 + 2 \<noteq> num_nodes demo_model \<and>
   get_embedding demo_model demo_conv demo_graph None (Some 1) (Some 2) (Some 10)
     = Inl RuntimeError"
proof -
  have h: "int (length (embedding demo_model)) = num_nodes demo_model"
    by (simp add: demo_model_def)
  have n: "1 + 2 \<noteq> num_nodes demo_model"
    by (simp add: demo_model_def)
  show ?thesis
    using partition_mismatch_raises
        [where conv = demo_conv and g = demo_graph and w = None and m = demo_model
           and u = 1 and i = 2 and scaling_factor = "Some 10", OF demo_conv_length h n]
      h n
    by (simp add: demo_propagate)
qed

section \<open>The ranking loss\<close>

lemma sigmoid_pos: "0 < sigmoid x"
  by (simp add: sigmoid_def add_pos_pos)

lemma sigmoid_strict_mono: "x < y \<Longrightarrow> sigmoid x < sigmoid y"
  by (simp add: sigmoid_def frac_less2 add_pos_pos)

lemma logsigmoid_strict_mono: "x < y \<Longrightarrow> logsigmoid x < logsigmoid y"
  by (simp add: logsigmoid_def sigmoid_pos sigmoid_strict_mono)

subsection \<open>A numeric bound for \<open>ln (1 + exp (- 2))\<close>\<close>

lemma exp_neg2_bounds: "13532 / 100000 < exp (- 2 :: real) \<and> exp (- 2 :: real) < 13542 / 100000"
proof -
  obtain t :: real where t: "\<bar>t\<bar> \<le> \<bar>- 2\<bar>"
    and e: "exp (- 2 :: real) = (\<Sum>m<12. (- 2) ^ m / fact m) + exp t / fact 12 * (- 2) ^ 12"
    using Maclaurin_exp_le [of "- 2 :: real" 12] by blast
  have s: "(\<Sum>m<12. (- 2 :: real) ^ m / fact m) = 21101 / 155925"
    by (simp add: eval_nat_numeral lessThan_Suc fact_numeral)
  have "exp t \<le> exp 2" using t by simp
  also have "exp (2::real) = exp 1 * exp 1" by (simp flip: exp_add)
  also have "\<dots> \<le> 3 * 3" by (intro mult_mono exp_le) simp_all
  finally have up: "exp t \<le> 9" by simp
  have lo: "0 < exp t" by simp
  define R where "R = exp t / fact 12 * (- 2 :: real) ^ 12"
  have f: "fact 12 = (479001600 :: real)" by (simp add: eval_nat_numeral)
  have r1: "0 < R" using lo by (simp add: R_def f)
  have r2: "R \<le> 9 / 479001600 * 4096" using up by (simp add: R_def f)
  have "exp (- 2 :: real) = 21101 / 155925 + R" using e s by (simp add: R_def)
  then show ?thesis using r1 r2 by simp
qed

lemma exp_small_upper: "exp (1259 / 10000 :: real) < 113483 / 100000"
proof -
  obtain t :: real where t: "\<bar>t\<bar> \<le> \<bar>1259 / 10000\<bar>"
    and e: "exp (1259 / 10000 :: real) = (\<Sum>m<3. (1259 / 10000) ^ m / fact m) + exp t / fact 3 * (1259 / 10000) ^ 3"
    using Maclaurin_exp_le [of "1259 / 10000 :: real" 3] by blast
  have "exp t \<le> exp 1" using t by simp
  also have "\<dots> \<le> 3" by (rule exp_le)
  finally have up: "exp t \<le> 3" .
  have r2: "exp t / fact 3 * (1259 / 10000) ^ 3 \<le> 3 / 6 * (1259 / 10000) ^ 3" using up by (simp add: eval_nat_numeral)
  have s: "(\<Sum>m<3. (1259 / 10000 :: real) ^ m / fact m) = 1 + 1259 / 10000 + (1259 / 10000)^2 / 2"
    by (simp add: eval_nat_numeral lessThan_Suc)
  show ?thesis using r2 unfolding e s by (simp add: power2_eq_square power3_eq_cube)
qed

lemma ln_bounds: "\<bar>ln (1 + exp (- 2 :: real)) - 1269 / 10000\<bar> < 1 / 1000"
proof -
  let ?a = "exp (- 2 :: real)"
  have a: "13532 / 100000 < ?a" "?a < 13542 / 100000" using exp_neg2_bounds by simp_all
  have "exp (1259 / 10000 :: real) < 1 + ?a" using exp_small_upper a by linarith
  then have l: "1259 / 10000 < ln (1 + ?a)"
    by (metis exp_gt_zero ln_exp ln_less_cancel_iff order_less_trans)
  have "1 + ?a < 1 + 1279 / 10000 + (1279 / 10000)\<^sup>2 / 2" using a by (simp add: power2_eq_square)
  also have "\<dots> \<le> exp (1279 / 10000 :: real)" by (rule exp_lower_Taylor_quadratic) simp
  finally have "ln (1 + ?a) < 1279 / 10000"
    by (metis add_pos_pos exp_gt_zero ln_exp ln_less_cancel_iff zero_less_one)
  with l show ?thesis unfolding abs_less_iff by linarith
qed

subsection \<open>No regularisation\<close>

lemma neg_logsigmoid_2: "- logsigmoid 2 = ln (1 + exp (- 2))"
  by (simp add: logsigmoid_def sigmoid_def ln_div add_pos_pos)

lemma getitem_valid: "valid_index (length xs) i \<Longrightarrow> \<exists>r. getitem xs i = Inr r"
  by (simp add: getitem_def valid_index_def)

lemma index_select_valid:
  "list_all (valid_index (length xs)) ids \<Longrightarrow> \<exists>rs. index_select xs ids = Inr rs"
proof (induction ids)
  case Nil
  then show ?case by simp
next
  case (Cons i ids)
  then obtain r rs where "getitem xs i = Inr r" "index_select xs ids = Inr rs"
    using getitem_valid [of xs i] by auto
  then show ?case by simp
qed

lemma BPRLoss_forward_no_reg:
  "length pos = length neg \<Longrightarrow>
   BPRLoss_forward 0 pos neg parameters
     = Inr (case mean (map logsigmoid (map2 (-) pos neg)) of
              NaN \<Rightarrow> NaN | Finite l \<Rightarrow> Finite (- l))"
  by (simp add: BPRLoss_forward_def broadcast_row_def regularization_def split: scalar.splits)

lemma recommendation_loss_no_reg:
  assumes "length pos = length neg"
    and "case node_id of None \<Rightarrow> True
         | Some ids \<Rightarrow> list_all (valid_index (length (embedding m))) ids"
  shows "recommendation_loss m pos neg node_id 0
     = Inr (case mean (map logsigmoid (map2 (-) pos neg)) of
              NaN \<Rightarrow> NaN | Finite l \<Rightarrow> Finite (- l))"
proof (cases node_id)
  case None
  then show ?thesis by (simp add: recommendation_loss_def BPRLoss_forward_no_reg [OF assms(1)])
next
  case (Some ids)
  then obtain emb where "index_select (embedding m) ids = Inr emb"
    using assms(2) index_select_valid by fastforce
  then show ?thesis
    by (simp add: Some recommendation_loss_def BPRLoss_forward_no_reg [OF assms(1)])
qed

text \<open>
  Claim C7. For \<^verbatim>\<open>pos_rank\<close> and \<^verbatim>\<open>neg_rank\<close> of equal length and
  \<^verbatim>\<open>lambda_reg = 0\<close>, \<^verbatim>\<open>recommendation_loss\<close> returns
  \<^verbatim>\<open>-mean(log(sigmoid(pos_rank - neg_rank)))\<close> (\<^verbatim>\<open>nan\<close> for empty vectors, as the
  mean is). No norm is computed: \<^verbatim>\<open>BPRLoss.forward\<close> returns the same value
  with no parameter tensor at all, where a norm would raise. The value is the
  same for any other embedding table \<open>m'\<close> of the same size. For \<open>[2]\<close> and \<open>[0]\<close> it
  is within \<open>1/1000\<close> of \<open>0.1269\<close>. A \<^verbatim>\<open>node_id\<close>, when given, holds positions
  that exist in the table: the rows are selected before the loss is computed.
\<close>

theorem loss_without_regularization:
  assumes "length pos = length neg"
    and "case node_id of None \<Rightarrow> True
         | Some ids \<Rightarrow> list_all (valid_index (length (embedding m))) ids"
    and "length (embedding m') = length (embedding m)"
  shows "recommendation_loss m pos neg node_id 0
           = Inr (case mean (map (\<lambda>(p, n). ln (sigmoid (p - n))) (zip pos neg)) of
                    NaN \<Rightarrow> NaN | Finite l \<Rightarrow> Finite (- l)) \<and>
         BPRLoss_forward 0 pos neg None = recommendation_loss m pos neg node_id 0 \<and>
         recommendation_loss m' pos neg node_id 0 = recommendation_loss m pos neg node_id 0 \<and>
         (\<exists>l. recommendation_loss m [2] [0] None 0 = Inr (Finite l) \<and>
              \<bar>l - 1269 / 10000\<bar> < 1 / 1000)"
proof -
  have e: "map (\<lambda>(p, n). ln (sigmoid (p - n))) (zip pos neg)
             = map logsigmoid (map2 (-) pos neg)"
    by (auto simp: logsigmoid_def)
  have 1: "recommendation_loss m pos neg node_id 0
             = Inr (case mean (map logsigmoid (map2 (-) pos neg)) of
                      NaN \<Rightarrow> NaN | Finite l \<Rightarrow> Finite (- l))"
    by (rule recommendation_loss_no_reg [OF assms(1,2)])
  have 2: "BPRLoss_forward 0 pos neg None = recommendation_loss m pos neg node_id 0"
    by (simp add: 1 BPRLoss_forward_no_reg [OF assms(1)])
  have a': "case node_id of None \<Rightarrow> True
            | Some ids \<Rightarrow> list_all (valid_index (length (embedding m'))) ids"
    using assms(2) by (simp only: assms(3))
  have 3: "recommendation_loss m' pos neg node_id 0 = recommendation_loss m pos neg node_id 0"
    by (simp add: 1 recommendation_loss_no_reg [OF assms(1) a'])
  have "recommendation_loss m [2] [0] None 0 = Inr (Finite (- logsigmoid 2))"
    by (simp add: recommendation_loss_def BPRLoss_forward_def broadcast_row_def
        regularization_def mean_def)
  then have 4: "\<exists>l. recommendation_loss m [2] [0] None 0 = Inr (Finite l) \<and>
                  \<bar>l - 1269 / 10000\<bar> < 1 / 1000"
    using ln_bounds by (simp add: neg_logsigmoid_2)
  show ?thesis using 1 2 3 4 by (simp only: e)
qed

theorem loss_without_regularization_witness:
  "recommendation_loss demo_model [2, 1] [0, 1] (Some [0, - 1]) 0
     = Inr (Finite (- ((ln (sigmoid 2) + ln (sigmoid 0)) / 2))) \<and>
   BPRLoss_forward 0 [2, 1] [0, 1] None
     = recommendation_loss demo_model [2, 1] [0, 1] (Some [0, - 1]) 0 \<and>
   recommendation_loss zero_item_model [2, 1] [0, 1] (Some [0, - 1]) 0
     = recommendation_loss demo_model [2, 1] [0, 1] (Some [0, - 1]) 0"
  using loss_without_regularization
    [where pos = "[2, 1]" and neg = "[0, 1]" and node_id = "Some [0, - 1]"
       and m = demo_model and m' = zero_item_model]
  by (simp add: valid_index_def demo_model_def zero_item_model_def mean_def)

subsection \<open>Monotonicity\<close>

lemma sum_list_update_real:
  "i < length xs \<Longrightarrow> sum_list (xs[i := v]) = sum_list xs - xs ! i + (v :: real)"
proof (induction xs arbitrary: i)
  case Nil
  then show ?case by simp
next
  case (Cons x xs)
  then show ?case by (cases i) simp_all
qed

lemma diff_update:
  assumes "length pos = length neg" and "i < length pos"
  shows "map logsigmoid (map2 (-) (pos[i := v]) neg)
           = (map logsigmoid (map2 (-) pos neg))[i := logsigmoid (v - neg ! i)]"
proof -
  have "zip (pos[i := v]) neg = (zip pos neg)[i := (v, neg ! i)]"
    using assms by (simp add: update_zip)
  then show ?thesis by (simp add: map_update)
qed

lemma BPRLoss_forward_value:
  assumes "length pos = length neg" and "pos \<noteq> []"
    and "lambda_reg = 0 \<or> parameters \<noteq> None"
  shows "\<exists>reg. regularization lambda_reg pos parameters = Inr reg \<and>
           BPRLoss_forward lambda_reg pos neg parameters
             = Inr (Finite (- (sum_list (map logsigmoid (map2 (-) pos neg)) / real (length pos))
                            + reg))"
proof -
  have "\<exists>reg. regularization lambda_reg pos parameters = Inr reg"
    using assms(3) by (cases parameters) (simp_all add: regularization_def)
  then obtain reg where r: "regularization lambda_reg pos parameters = Inr reg" ..
  have "BPRLoss_forward lambda_reg pos neg parameters
          = Inr (Finite (- (sum_list (map logsigmoid (map2 (-) pos neg)) / real (length pos))
                         + reg))"
    using assms(1,2) by (auto simp: BPRLoss_forward_def broadcast_row_def r mean_def)
  then show ?thesis using r by blast
qed

lemma regularization_update:
  "regularization lambda_reg (pos[i := v]) parameters = regularization lambda_reg pos parameters"
  by (cases parameters) (simp_all add: regularization_def)

text \<open>
  Claim C8, amended. In exact real arithmetic, with \<^verbatim>\<open>neg_rank\<close> and the other
  entries of \<^verbatim>\<open>pos_rank\<close> fixed, replacing \<open>pos_rank[i]\<close> by \<open>pos_rank[i] + d\<close> for a
  \<open>d > 0\<close> strictly decreases the loss of \<^verbatim>\<open>BPRLoss.forward\<close>, for every
  \<^verbatim>\<open>lambda_reg\<close> (with a parameter tensor present when \<^verbatim>\<open>lambda_reg\<close> is not 0).
\<close>

theorem loss_strictly_decreases:
  assumes "length pos = length neg" and "i < length pos" and "0 < d"
    and "lambda_reg = 0 \<or> parameters \<noteq> None"
  shows "\<exists>l l'. BPRLoss_forward lambda_reg pos neg parameters = Inr (Finite l) \<and>
           BPRLoss_forward lambda_reg (pos[i := pos ! i + d]) neg parameters = Inr (Finite l') \<and>
           l' < l"
proof -
  let ?pos' = "pos[i := pos ! i + d]"
  let ?S = "sum_list (map logsigmoid (map2 (-) pos neg))"
  let ?S' = "sum_list (map logsigmoid (map2 (-) ?pos' neg))"
  have ne: "pos \<noteq> []" "?pos' \<noteq> []" using assms(2) by auto
  have len: "length ?pos' = length neg" using assms(1) by simp
  obtain reg where r: "regularization lambda_reg pos parameters = Inr reg"
    and v: "BPRLoss_forward lambda_reg pos neg parameters
              = Inr (Finite (- (?S / real (length pos)) + reg))"
    using BPRLoss_forward_value [OF assms(1) ne(1) assms(4)] by blast
  obtain reg' where r': "regularization lambda_reg ?pos' parameters = Inr reg'"
    and v': "BPRLoss_forward lambda_reg ?pos' neg parameters
              = Inr (Finite (- (?S' / real (length ?pos')) + reg'))"
    using BPRLoss_forward_value [OF len ne(2) assms(4)] by blast
  have same: "reg' = reg" using r r' by (simp add: regularization_update)
  have k: "i < length (map logsigmoid (map2 (-) pos neg))" using assms(1,2) by simp
  have old: "map logsigmoid (map2 (-) pos neg) ! i = logsigmoid (pos ! i - neg ! i)"
    using assms(1,2) by simp
  have "?S' = sum_list ((map logsigmoid (map2 (-) pos neg))
                           [i := logsigmoid (pos ! i + d - neg ! i)])"
    by (simp only: diff_update [OF assms(1,2)])
  also have "\<dots> = ?S - map logsigmoid (map2 (-) pos neg) ! i
                      + logsigmoid (pos ! i + d - neg ! i)"
    by (rule sum_list_update_real [OF k])
  finally have "?S' = ?S - logsigmoid (pos ! i - neg ! i) + logsigmoid (pos ! i + d - neg ! i)"
    by (simp only: old)
  moreover have "logsigmoid (pos ! i - neg ! i) < logsigmoid (pos ! i + d - neg ! i)"
    using assms(3) by (intro logsigmoid_strict_mono) simp
  ultimately have "?S < ?S'" by simp
  then have "?S / real (length pos) < ?S' / real (length pos)"
    using ne(1) by (simp add: divide_strict_right_mono)
  then have "- (?S' / real (length ?pos')) + reg' < - (?S / real (length pos)) + reg"
    using same by simp
  then show ?thesis using v v' by blast
qed

theorem loss_strictly_decreases_witness:
  "\<exists>l l'. BPRLoss_forward (1 / 10) [2, 1] [0, 1] (Some [[3, 4]]) = Inr (Finite l) \<and>
     BPRLoss_forward (1 / 10) [2, 1 + 1 / 2] [0, 1] (Some [[3, 4]]) = Inr (Finite l') \<and>
     l' < l"
  using loss_strictly_decreases
    [where pos = "[2, 1]" and neg = "[0, 1]" and i = 1 and d = "1 / 2"
       and lambda_reg = "1 / 10" and parameters = "Some [[3, 4]]"]
  by simp

subsection \<open>Single precision\<close>

lemma rne_of_int: "rne (of_int k) = k"
  by (simp add: rne_def)

lemma fl32_zero: "fl32 0 = 0"
  by (simp add: fl32_def rne_def)

lemma fl32_tiny:
  assumes "0 \<le> y" and "y < 2 powr (- 150)"
  shows "fl32 y = 0"
proof -
  have "(2::real) powr (- 150) < 2 powr (- 126)" by simp
  then have "\<bar>y\<bar> < 2 powr (- 126)" using assms by linarith
  then have u: "ulp32 y = 2 powr (- 149)" by (simp add: ulp32_def)
  have h: "(2::real) powr (- 150) = 2 powr (- 149) / 2"
    by (simp add: powr_minus powr_numeral flip: power_Suc)
  have p: "0 < (2::real) powr (- 149)" by simp
  define r where "r = y / 2 powr (- 149)"
  have lt: "r < 1 / 2" using assms(2) p unfolding h r_def
    by (simp add: field_simps)
  have ge: "0 \<le> r" using assms(1) by (simp add: r_def)
  have "0 \<le> r \<and> r < 0 + 1" using lt ge by linarith
  then have fl: "\<lfloor>r\<rfloor> = 0" by (simp only: floor_eq_iff of_int_0)
  have "rne r = 0" using lt by (simp add: rne_def fl)
  then show ?thesis by (simp add: fl32_def u r_def [symmetric])
qed

lemma exp_neg_tiny:
  assumes "200 \<le> (x :: real)"
  shows "exp (- x) < 2 powr (- 150)"
proof -
  have "(2::real) \<le> exp 1" using exp_ge_add_one_self [of "1::real"] by simp
  then have "(2::real) ^ 200 \<le> exp 1 ^ 200" by (intro power_mono) simp_all
  also have "\<dots> = exp (200 :: real)" using exp_of_nat_mult [of 200 "1::real"] by simp
  finally have b: "(2::real) ^ 200 \<le> exp 200" .
  have "exp (- x) \<le> exp (- 200 :: real)" using assms by simp
  also have "\<dots> = inverse (exp 200)" by (simp add: exp_minus)
  also have "\<dots> \<le> inverse (2 ^ 200)" using b by (intro le_imp_inverse_le) simp_all
  also have "\<dots> < inverse (2 ^ 150)" by (simp add: field_simps)
  also have "inverse ((2::real) ^ 150) = 2 powr (- 150)"
    by (simp add: powr_minus powr_numeral)
  finally show ?thesis .
qed

lemma logsigmoid32_saturates:
  assumes "200 \<le> x"
  shows "logsigmoid32 x = 0"
proof -
  have a: "\<bar>x\<bar> = x" using assms by simp
  have "exp32 (- \<bar>x\<bar>) = 0"
    unfolding exp32_def a using fl32_tiny [OF _ exp_neg_tiny [OF assms]] by simp
  then show ?thesis using assms by (simp add: logsigmoid32_def log1p32_def fl32_zero)
qed

lemma ulp32_binade7:
  assumes "128 \<le> x" and "x < 256"
  shows "ulp32 x = 1 / 65536"
proof -
  have pos: "0 < x" using assms by simp
  have "\<lfloor>log 2 \<bar>x\<bar>\<rfloor> = 7"
    using assms pos by (simp add: floor_log_eq_powr_iff powr_numeral)
  moreover have "\<not> \<bar>x\<bar> < 2 powr (- 126)"
  proof -
    have "(2::real) powr (- 126) \<le> 2 powr 0" by (intro powr_mono) simp_all
    then show ?thesis using assms by simp
  qed
  ultimately show ?thesis by (simp add: ulp32_def powr_minus powr_numeral)
qed

lemma fl32_binade7:
  assumes "128 \<le> real_of_int k" and "real_of_int k < 256"
  shows "fl32 (of_int k) = of_int k"
proof -
  have u: "ulp32 (of_int k) = 1 / 65536" by (rule ulp32_binade7 [OF assms])
  have "real_of_int k / (1 / 65536) = of_int (k * 65536)" by simp
  then have "rne (real_of_int k / (1 / 65536)) = k * 65536" by (simp only: rne_of_int)
  then show ?thesis by (simp add: fl32_def u)
qed

lemma fl32_200: "fl32 200 = 200"
  using fl32_binade7 [of 200] by simp

lemma fl32_201: "fl32 201 = 201"
  using fl32_binade7 [of 201] by simp

text \<open>
  As stated, for the value that the program computes, claim C8 fails: in single
  precision \<^verbatim>\<open>exp(-200)\<close> is 0, so \<^verbatim>\<open>logsigmoid\<close> is 0 from 200 on, and raising the
  entry 200 of \<^verbatim>\<open>pos_rank\<close> by \<open>d = 1\<close> leaves the loss at 0.
\<close>

theorem loss_saturates_counterexample:
  "BPRLoss_forward32 [200] [0] = Inr (Finite 0) \<and>
   BPRLoss_forward32 ([200][0 := 200 + 1]) [0] = Inr (Finite 0)"
  by (simp add: BPRLoss_forward32_def broadcast_row_def mean32_def sum32_def fl32_200 fl32_201
      logsigmoid32_saturates fl32_zero)


text \<open>
  A small increase is not even stored: \<^verbatim>\<open>2 + 1e-8\<close> rounds to 2, so the tensor,
  and with it the loss, is the same.
\<close>

lemma fl32_absorbs: "fl32 (2 + 1 / 10 ^ 8) = 2"
proof -
  let ?x = "2 + 1 / 10 ^ 8 :: real"
  have "\<lfloor>log 2 \<bar>?x\<bar>\<rfloor> = 1"
    by (simp add: floor_log_eq_powr_iff powr_numeral)
  moreover have "\<not> \<bar>?x\<bar> < 2 powr (- 126)"
  proof -
    have "(2::real) powr (- 126) \<le> 2 powr 0" by (intro powr_mono) simp_all
    then show ?thesis by simp
  qed
  ultimately have u: "ulp32 ?x = 1 / 4194304"
    by (simp add: ulp32_def powr_minus powr_numeral)
  define r where "r = ?x / (1 / 4194304)"
  have v: "r = 8388608 + 4194304 / 10 ^ 8" by (simp add: r_def)
  have "of_int 8388608 \<le> r \<and> r < of_int 8388608 + 1" by (simp add: v)
  then have fl: "\<lfloor>r\<rfloor> = 8388608" by (simp only: floor_eq_iff)
  have "r - of_int \<lfloor>r\<rfloor> < 1 / 2" by (simp add: fl v)
  then have n: "rne r = 8388608" by (simp add: rne_def fl)
  have "fl32 ?x = of_int (rne (?x / ulp32 ?x)) * ulp32 ?x" by (simp only: fl32_def)
  also have "\<dots> = of_int (rne r) * (1 / 4194304)" by (simp only: u r_def)
  also have "\<dots> = 2" by (simp add: n)
  finally show ?thesis .
qed

section \<open>What the methods write\<close>

lemma extends_refl: "extends s s"
  by (simp add: extends_def)

lemma extends_trans: "extends s s' \<Longrightarrow> extends s' s'' \<Longrightarrow> extends s s''"
  by (auto simp: extends_def intro: prefix_order.trans)

lemma allocates_returnS: "allocates (returnS v)"
  by (simp add: allocates_def returnS_def extends_refl)

lemma allocates_liftS: "allocates (liftS r)"
  by (simp add: allocates_def liftS_def extends_refl)

lemma allocates_get_vec: "allocates (get_vec a)"
  by (simp add: allocates_def get_vec_def extends_refl)

lemma allocates_get_mat: "allocates (get_mat a)"
  by (simp add: allocates_def get_mat_def extends_refl)

lemma allocates_new_vec: "allocates (new_vec r)"
  by (cases r) (simp_all add: allocates_def new_vec_def extends_def)

lemma allocates_new_mat: "allocates (new_mat r)"
  by (cases r) (simp_all add: allocates_def new_mat_def extends_def)

lemma allocates_bindS:
  assumes "allocates c" and "\<And>v. allocates (f v)"
  shows "allocates (bindS c f)"
proof -
  have "extends s (snd (bindS c f s))" for s
  proof (cases "c s")
    case (Pair r s')
    have 1: "extends s s'" using assms(1) Pair by (metis allocates_def snd_conv)
    show ?thesis
    proof (cases r)
      case (Inl e)
      then show ?thesis using Pair 1 by (simp add: bindS_def)
    next
      case (Inr v)
      have "extends s' (snd (f v s'))" using assms(2) by (simp add: allocates_def)
      then show ?thesis using Pair Inr 1 by (simp add: bindS_def extends_trans)
    qed
  qed
  then show ?thesis by (simp add: allocates_def)
qed

lemmas allocates_intros =
  allocates_bindS allocates_returnS allocates_liftS allocates_get_vec allocates_get_mat allocates_new_vec allocates_new_mat

lemma allocates_layers_st: "allocates (layers_st conv g w al i k x out)"
  by (induction k arbitrary: i x out) (simp_all add: allocates_intros)

lemma allocates_get_embedding_st: "allocates (get_embedding_st md conv g w nu ni sf)"
  unfolding get_embedding_st_def
  by (intro allocates_intros allocates_layers_st) (simp_all add: allocates_intros split: prod.splits)


lemma allocates_score_edges_st: "allocates (score_edges_st out b eli)"
  unfolding score_edges_st_def
  by (intro allocates_intros) (simp_all add: allocates_intros split: prod.splits)

lemma allocates_forward_st: "allocates (forward_st md conv g eli nu ni sf w)"
  unfolding forward_st_def Let_def
  by (intro allocates_intros allocates_get_embedding_st allocates_score_edges_st)

lemma allocates_recommendation_loss_st: "allocates (recommendation_loss_st md p n node_id lam)"
  unfolding recommendation_loss_st_def
  by (cases node_id) (simp_all add: allocates_intros)

lemma extends_vecs: "extends s s' \<Longrightarrow> a < length (vecs s) \<Longrightarrow> vecs s' ! a = vecs s ! a"
  by (auto simp: extends_def prefix_def nth_append)

lemma extends_mats: "extends s s' \<Longrightarrow> a < length (mats s) \<Longrightarrow> mats s' ! a = mats s ! a"
  by (auto simp: extends_def prefix_def nth_append)

lemma extends_model_of:
  assumes "extends s s'"
    and "alpha_at md < length (vecs s)"
    and "embedding_at md < length (mats s)"
    and "beta_at md < length (mats s)"
  shows "model_of md s' = model_of md s"
  using assms by (simp add: model_of_def extends_vecs extends_mats)

text \<open>
  Claim C10. After a call of \<^verbatim>\<open>get_embedding\<close>, of \<^verbatim>\<open>forward\<close> or of
  \<^verbatim>\<open>recommendation_loss\<close>, whether it returns or raises, the embedding table, the
  bias table and the alpha vector of the module are what they were before the
  call (and so are its integer attributes).
\<close>

theorem methods_keep_tables:
  assumes "alpha_at md < length (vecs s)"
    and "embedding_at md < length (mats s)"
    and "beta_at md < length (mats s)"
  shows "model_of md (snd (get_embedding_st md conv g w nu ni sf s)) = model_of md s \<and>
         model_of md (snd (forward_st md conv g eli nu ni sf w s)) = model_of md s \<and>
         model_of md (snd (recommendation_loss_st md p n node_id lam s)) = model_of md s"
proof -
  have 1: "extends s (snd (get_embedding_st md conv g w nu ni sf s))"
    using allocates_get_embedding_st by (simp add: allocates_def)
  have 2: "extends s (snd (forward_st md conv g eli nu ni sf w s))"
    using allocates_forward_st by (simp add: allocates_def)
  have 3: "extends s (snd (recommendation_loss_st md p n node_id lam s))"
    using allocates_recommendation_loss_st by (simp add: allocates_def)
  show ?thesis
    using extends_model_of [OF 1 assms] extends_model_of [OF 2 assms]
      extends_model_of [OF 3 assms]
    by simp
qed

lemma demo_model_of: "model_of demo_module demo_store = demo_model"
  by (simp add: model_of_def demo_module_def demo_store_def demo_model_def)

theorem methods_keep_tables_witness:
  "alpha_at demo_module < length (vecs demo_store) \<and>
   embedding_at demo_module < length (mats demo_store) \<and>
   beta_at demo_module < length (mats demo_store) \<and>
   model_of demo_module
     (snd (get_embedding_st demo_module demo_conv demo_graph None (Some 2) (Some 2) (Some 10)
        demo_store)) = demo_model \<and>
   model_of demo_module
     (snd (forward_st demo_module demo_conv demo_graph (Some demo_edges) (Some 2) (Some 2)
        (Some 10) None demo_store)) = demo_model \<and>
   model_of demo_module
     (snd (recommendation_loss_st demo_module 1 2 None (1 / 10) demo_store)) = demo_model"
proof -
  have h: "alpha_at demo_module < length (vecs demo_store)"
    "embedding_at demo_module < length (mats demo_store)"
    "beta_at demo_module < length (mats demo_store)"
    by (simp_all add: demo_module_def demo_store_def)
  show ?thesis
    using h methods_keep_tables [OF h, of demo_conv demo_graph None "Some 2" "Some 2" "Some 10"
        "Some demo_edges" 1 2 None "1 / 10"]
    by (simp add: demo_model_of)
qed

text \<open>
  \<^verbatim>\<open>reset_parameters\<close>, in contrast, changes the tables: on the instance the
  model after it is not the model before it.
\<close>

lemma reset_parameters_st_writes:
  "model_of demo_module (snd (reset_parameters_st demo_module (\<lambda>i j. 0) (\<lambda>i j. 0) demo_store))
     \<noteq> model_of demo_module demo_store"
  by (simp add: reset_parameters_st_def bindS_def get_mat_def liftS_def fill_mat_def
      xavier_uniform_def model_of_def demo_module_def demo_store_def demo_model_def)

subsection \<open>The methods in the store compute what the functions on values compute\<close>

lemma layers_st_refines:
  assumes "x < length (mats s)" and "out < length (mats s)"
  shows "case layers_st conv g w al i k x out s of
           (Inl e, s') \<Rightarrow> layers conv g w al i k (mats s ! x) (mats s ! out) = Inl e
         | (Inr a, s') \<Rightarrow> a < length (mats s') \<and>
             layers conv g w al i k (mats s ! x) (mats s ! out) = Inr (mats s' ! a)"
  using assms
proof (induction k arbitrary: i x out s)
  case 0
  then show ?case by (simp add: returnS_def)
next
  case (Suc k)
  show ?case
  proof (cases "conv (mats s ! x) g w")
    case (Inl e)
    then show ?thesis by (simp add: bindS_def get_mat_def new_mat_def)
  next
    case c: (Inr xv')
    show ?thesis
    proof (cases "getitem al (int i + 1)")
      case (Inl e)
      then show ?thesis by (simp add: c bindS_def get_mat_def new_mat_def liftS_def)
    next
      case a: (Inr a)
      show ?thesis
      proof (cases "mat_add (mats s ! out) (scale xv' a)")
        case (Inl e)
        then show ?thesis
          using Suc.prems
          by (simp add: c a bindS_def get_mat_def new_mat_def liftS_def nth_append)
      next
        case m: (Inr ov')
        let ?s3 = "s\<lparr>mats := mats s @ [xv', scale xv' a, ov']\<rparr>"
        have step: "layers_st conv g w al i (Suc k) x out s
                      = layers_st conv g w al (Suc i) k (length (mats s)) (length (mats s) + 2) ?s3"
          using Suc.prems
          by (simp add: c a m bindS_def get_mat_def new_mat_def liftS_def nth_append)
        have p: "layers conv g w al i (Suc k) (mats s ! x) (mats s ! out)
                      = layers conv g w al (Suc i) k xv' ov'"
          by (simp add: c a m)
        have r: "mats ?s3 ! length (mats s) = xv'" "mats ?s3 ! (length (mats s) + 2) = ov'"
          by (simp_all add: nth_append)
        have b: "length (mats s) < length (mats ?s3)" "length (mats s) + 2 < length (mats ?s3)"
          by simp_all
        show ?thesis
          using Suc.IH [OF b, of "Suc i"]
          by (simp only: step p r)
      qed
    qed
  qed
qed


lemma propagate_model_of:
  "propagate (model_of md s) conv g w =
     bindE (getitem (vecs s ! alpha_at md) 0) (\<lambda>a0.
       layers conv g w (vecs s ! alpha_at md) 0 (nat (layers_count md))
         (mats s ! embedding_at md) (scale (mats s ! embedding_at md) a0))"
  by (simp add: propagate_def model_of_def)

lemma get_embedding_st_refines:
  assumes "embedding_at md < length (mats s)"
  shows "case get_embedding_st md conv g w nu ni sf s of
           (Inl e, s') \<Rightarrow> get_embedding (model_of md s) conv g w nu ni sf = Inl e
         | (Inr a, s') \<Rightarrow> a < length (mats s') \<and>
             get_embedding (model_of md s) conv g w nu ni sf = Inr (mats s' ! a)"
proof (cases "getitem (vecs s ! alpha_at md) 0")
  case (Inl e)
  then show ?thesis
    by (simp add: get_embedding_st_def get_embedding_def propagate_model_of bindS_def
        returnS_def get_vec_def liftS_def)
next
  case a0: (Inr a0)
  let ?x = "embedding_at md"
  let ?al = "vecs s ! alpha_at md"
  let ?s1 = "s\<lparr>mats := mats s @ [scale (mats s ! ?x) a0]\<rparr>"
  let ?loop = "layers_st conv g w ?al 0 (nat (layers_count md)) ?x (length (mats s)) ?s1"
  have b: "?x < length (mats ?s1)" "length (mats s) < length (mats ?s1)"
    using assms by simp_all
  have r: "mats ?s1 ! ?x = mats s ! ?x" "mats ?s1 ! length (mats s) = scale (mats s ! ?x) a0"
    using assms by (simp_all add: nth_append)
  have p: "propagate (model_of md s) conv g w
             = layers conv g w ?al 0 (nat (layers_count md)) (mats s ! ?x)
                 (scale (mats s ! ?x) a0)"
    by (simp add: propagate_model_of a0)
  have l: "case ?loop of
             (Inl e, s') \<Rightarrow> propagate (model_of md s) conv g w = Inl e
           | (Inr a, s') \<Rightarrow> a < length (mats s') \<and>
               propagate (model_of md s) conv g w = Inr (mats s' ! a)"
    using layers_st_refines [OF b, of conv g w ?al 0 "nat (layers_count md)"]
    by (simp only: r p)
  have u: "get_embedding_st md conv g w nu ni sf s =
             bindS (\<lambda>_. ?loop) (\<lambda>out.
             bindS (get_mat out) (\<lambda>ov.
             bindS (liftS (split ov nu ni)) (\<lambda>(user_emb, item_emb).
             bindS (new_mat (Inr (normalize item_emb))) (\<lambda>nrm.
             bindS (get_mat nrm) (\<lambda>nv.
             bindS (new_mat (mul_factor nv sf)) (\<lambda>item_emb'.
             bindS (get_mat item_emb') (\<lambda>iv.
               new_mat (Inr (user_emb @ iv))))))))) s"
    by (simp add: get_embedding_st_def bindS_def returnS_def get_vec_def liftS_def a0
        get_mat_def new_mat_def)
  obtain res s2 where loop: "?loop = (res, s2)" by (cases ?loop)
  show ?thesis
  proof (cases res)
    case (Inl e)
    then show ?thesis using l loop by (simp add: u bindS_def get_embedding_def)
  next
    case (Inr a)
    then have pa: "propagate (model_of md s) conv g w = Inr (mats s2 ! a)"
      using l loop by simp
    show ?thesis
      using u loop Inr pa
      by (cases "split (mats s2 ! a) nu ni"; cases sf)
        (auto simp: bindS_def get_embedding_def get_mat_def liftS_def
          new_mat_def mul_factor_def nth_append)
  qed
qed


lemma extends_length: "extends s s' \<Longrightarrow> a < length (mats s) \<Longrightarrow> a < length (mats s')"
  by (auto simp: extends_def prefix_def)

lemma score_edges_st_refines:
  assumes "a < length (mats s)" and "b < length (mats s)"
  shows "case score_edges_st a b eli s of
           (Inl e, s') \<Rightarrow> score_edges (mats s ! a) (mats s ! b) eli = Inl e
         | (Inr (p, n), s') \<Rightarrow> p < length (mats s') \<and> n < length (mats s') \<and>
             score_edges (mats s ! a) (mats s ! b) eli = Inr (mats s' ! p, mats s' ! n)"
  using assms
  by (auto simp: score_edges_st_def score_edges_def bindS_def bindE_def get_mat_def get_vec_def
      new_mat_def new_vec_def liftS_def returnS_def nth_append split: sum.splits)

lemma forward_st_refines:
  assumes "embedding_at md < length (mats s)" and "beta_at md < length (mats s)"
  shows "case forward_st md conv g eli nu ni sf w s of
           (Inl e, s') \<Rightarrow> forward (model_of md s) conv g eli nu ni sf w = Inl e
         | (Inr (p, n), s') \<Rightarrow> p < length (mats s') \<and> n < length (mats s') \<and>
             forward (model_of md s) conv g eli nu ni sf w = Inr (mats s' ! p, mats s' ! n)"
proof -
  define E where "E = (case eli of
                   None \<Rightarrow> (if is_sparse g then to_edge_index g else index_tensor g)
                 | Some e \<Rightarrow> e)"
  obtain res s1 where ge: "get_embedding_st md conv g w nu ni sf s = (res, s1)"
    by (cases "get_embedding_st md conv g w nu ni sf s")
  have "extends s (snd (get_embedding_st md conv g w nu ni sf s))"
    using allocates_get_embedding_st by (simp add: allocates_def)
  then have ext: "extends s s1" by (simp add: ge)
  have bl: "beta_at md < length (mats s1)" using extends_length [OF ext assms(2)] .
  have bv: "mats s1 ! beta_at md = beta (model_of md s)"
    using extends_mats [OF ext assms(2)] by (simp add: model_of_def)
  have r: "case res of
             Inl e \<Rightarrow> get_embedding (model_of md s) conv g w nu ni sf = Inl e
           | Inr a \<Rightarrow> a < length (mats s1) \<and>
               get_embedding (model_of md s) conv g w nu ni sf = Inr (mats s1 ! a)"
    using get_embedding_st_refines [OF assms(1), of conv g w nu ni sf] ge by simp
  have f: "forward (model_of md s) conv g eli nu ni sf w
             = bindE (get_embedding (model_of md s) conv g w nu ni sf)
                 (\<lambda>out. score_edges out (beta (model_of md s)) E)"
    by (simp add: forward_def E_def)
  have fs: "forward_st md conv g eli nu ni sf w s
             = (case res of Inl e \<Rightarrow> (Inl e, s1)
                | Inr a \<Rightarrow> score_edges_st a (beta_at md) E s1)"
    by (simp add: forward_st_def E_def [symmetric] bindS_def ge split: sum.splits)
  show ?thesis
  proof (cases res)
    case (Inl e)
    then show ?thesis using r by (simp add: f fs)
  next
    case (Inr a)
    then have g: "get_embedding (model_of md s) conv g w nu ni sf = Inr (mats s1 ! a)"
      and al: "a < length (mats s1)"
      using r by simp_all
    have fe: "forward (model_of md s) conv g eli nu ni sf w
                = score_edges (mats s1 ! a) (mats s1 ! beta_at md) E"
      by (simp add: f g bv)
    have fa: "forward_st md conv g eli nu ni sf w s = score_edges_st a (beta_at md) E s1"
      by (simp add: fs Inr)
    show ?thesis
      unfolding fe fa by (rule score_edges_st_refines [OF al bl])
  qed
qed

lemma recommendation_loss_st_refines:
  "fst (recommendation_loss_st md p n node_id lam s)
     = recommendation_loss (model_of md s) (vecs s ! p) (vecs s ! n) node_id lam"
  by (cases node_id)
    (auto simp: recommendation_loss_st_def recommendation_loss_def model_of_def bindS_def
      bindE_def returnS_def get_mat_def get_vec_def new_mat_def liftS_def split: sum.splits)


end
